theory Spec2Isabelle
  imports Main "HOL-Library.Word" "HOL-Library.AList"
begin

unbundle bit_operations_syntax

section \<open>ramfs: the file server state of fs.go\<close>

subsection \<open>Machine types and the plan9 mode bits\<close>

type_synonym u8 = "8 word"
type_synonym u32 = "32 word"
type_synonym u64 = "64 word"

text \<open>\<^verbatim>\<open>type Perm uint32\<close>, and \<^verbatim>\<open>plan9.Perm\<close>, which is the same machine type.\<close>

type_synonym Perm = u32

text \<open>
  The mode bits of the goplan9 package that fs.go re-exports (\<^verbatim>\<open>DMDIR = plan9.DMDIR\<close> and
  so on). They are the constants of the 9P2000 protocol.
\<close>

definition DMDIR :: Perm where "DMDIR = 0x80000000"
definition DMREAD :: Perm where "DMREAD = 0x4"
definition DMWRITE :: Perm where "DMWRITE = 0x2"
definition DMEXEC :: Perm where "DMEXEC = 0x1"

text \<open>
  Go writes permissions in octal (\<^verbatim>\<open>0755\<close>); \<open>octal [7, 5, 5]\<close> is that literal.
\<close>

definition octal :: "nat list \<Rightarrow> Perm" where
  "octal ds = word_of_nat (foldl (\<lambda>acc d. 8 * acc + d) 0 ds)"

text \<open>
  The permission triads of a mode word: the owner's bits are the mode bit shifted left by
  six, the group's by three, everybody else's are the low three bits.
\<close>

datatype who = Owner | Group | Other

definition triad_shift :: "who \<Rightarrow> nat" where
  "triad_shift w = (case w of Owner \<Rightarrow> 6 | Group \<Rightarrow> 3 | Other \<Rightarrow> 0)"

definition grants :: "Perm \<Rightarrow> who \<Rightarrow> Perm \<Rightarrow> bool" where
  "grants m w b \<longleftrightarrow> m AND push_bit (triad_shift w) b \<noteq> 0"

subsection \<open>Errors\<close>

text \<open>
  fs.go builds its one error of its own with \<^verbatim>\<open>perror("out of paths")\<close>; the spec calls
  it ResourceExhausted. \<open>NotFound\<close> is the error of the tree walk and \<open>UnknownUser\<close>
  the error of a failed lookup in the identity store; both are raised outside fs.go.
\<close>

datatype error = perror string | NotFound | UnknownUser

abbreviation ResourceExhausted :: error where
  "ResourceExhausted \<equiv> perror ''out of paths''"

subsection \<open>Nodes, identities and the server record\<close>

text \<open>
  Nodes are reached through pointers and the tree is cyclic (the root is its own parent),
  so nodes live in a store. A reference is the address of a cell, a nil pointer is
  \<open>None\<close>.
\<close>

type_synonym ref = nat

text \<open>
  The last argument of \<^verbatim>\<open>newNode\<close> is the content provider of a synthetic file:
  \<^verbatim>\<open>nil\<close>, the identity store \<^verbatim>\<open>fs.group\<close>, or the control file \<^verbatim>\<open>newCtl(fs)\<close>.
\<close>

datatype provider = NoProvider | GroupProvider | CtlProvider

text \<open>
  Modelled from the spec: the node struct is declared outside fs.go. The spec lists its
  fields: name, owner uid, group gid, type and mode bits, the unique 64-bit path id, a
  version counter, the parent back-reference, the named children and the content
  provider. fs.go itself names the fields \<^verbatim>\<open>children\<close> and \<^verbatim>\<open>parent\<close>.
\<close>

record node =
  nname :: string
  nuid :: string
  ngid :: string
  nmode :: Perm
  npath :: u64
  nvers :: u32
  parent :: "ref option"
  children :: "string \<rightharpoonup> ref"
  nfile :: provider

text \<open>
  The store: the cell at every address and the next address to hand out. A cell that was
  never allocated holds the zero value of the struct, \<^verbatim>\<open>node{}\<close>.
\<close>

record store =
  cells :: "ref \<Rightarrow> node"
  next_ref :: ref

definition node0 :: node where
  "node0 = \<lparr>nname = [], nuid = [], ngid = [], nmode = 0, npath = 0, nvers = 0,
            parent = None, children = Map.empty, nfile = NoProvider\<rparr>"

definition store0 :: store where
  "store0 = \<lparr>cells = (\<lambda>_. node0), next_ref = 0\<rparr>"

definition alloc :: "store \<Rightarrow> node \<Rightarrow> ref \<times> store" where
  "alloc s n = (next_ref s, s\<lparr>cells := (cells s)(next_ref s := n), next_ref := Suc (next_ref s)\<rparr>)"

text \<open>\<^verbatim>\<open>d.children[name] = c\<close> and \<^verbatim>\<open>n.parent = p\<close> through the pointers \<open>d\<close> and \<open>n\<close>.\<close>

definition set_child :: "store \<Rightarrow> ref \<Rightarrow> string \<Rightarrow> ref \<Rightarrow> store" where
  "set_child s d name c =
     s\<lparr>cells := (cells s)(d := (cells s d)\<lparr>children := (children (cells s d))(name \<mapsto> c)\<rparr>)\<rparr>"

definition set_parent :: "store \<Rightarrow> ref \<Rightarrow> ref \<Rightarrow> store" where
  "set_parent s n p = s\<lparr>cells := (cells s)(n := (cells s n)\<lparr>parent := Some p\<rparr>)\<rparr>"

text \<open>
  Modelled from the spec: the identity store is declared outside fs.go. An identity has a
  canonical name (\<^verbatim>\<open>user.Name\<close>, the one field fs.go reads); the store maps a user name
  to its identity.
\<close>

record user =
  Name :: string

type_synonym ugroup = "string \<rightharpoonup> user"

text \<open>
  \<^verbatim>\<open>type FS struct\<close>. The mutex \<^verbatim>\<open>mu\<close>, the channel \<^verbatim>\<open>fidnew\<close> and the logger \<^verbatim>\<open>Log\<close>
  carry no data of their own. \<^verbatim>\<open>pathmap\<close> is a \<^verbatim>\<open>map[uint64]bool\<close> that is iterated, so it
  is the list of its entries. \<^verbatim>\<open>root\<close> is assigned once, before \<^verbatim>\<open>New\<close> returns.
\<close>

record FS =
  path :: u64
  pathmap :: "(u64 \<times> bool) list"
  root :: ref
  fs_group :: ugroup
  hostowner :: string
  chatty :: bool

subsection \<open>The path allocator\<close>

definition maxPath :: u64 where
  "maxPath = 0xFFFFFFFFFFFFFFFF"

text \<open>
  \<^verbatim>\<open>func (fs *FS) newPath() (uint64, error)\<close>. The \<^verbatim>\<open>range\<close> loop over a Go map yields
  the entries in an order the runtime chooses; its body deletes the first entry yielded and
  returns its key. So any entry of the map may be the one returned, and \<open>newPath\<close> is a
  relation between the state before, the result and the state after: one rule for each
  \<^verbatim>\<open>return\<close> of the source.
\<close>

inductive newPath :: "FS \<Rightarrow> error + u64 \<Rightarrow> FS \<Rightarrow> bool" where
  newPath_reclaim:
    "(p, b) \<in> set (pathmap fs) \<Longrightarrow>
     newPath fs (Inr p) (fs\<lparr>pathmap := AList.delete p (pathmap fs)\<rparr>)"
| newPath_exhausted:
    "pathmap fs = [] \<Longrightarrow> path fs = maxPath \<Longrightarrow>
     newPath fs (Inl (perror ''out of paths'')) fs"
| newPath_bump:
    "pathmap fs = [] \<Longrightarrow> path fs \<noteq> maxPath \<Longrightarrow>
     newPath fs (Inr (path fs)) (fs\<lparr>path := path fs + 1\<rparr>)"

code_pred newPath .

text \<open>\<^verbatim>\<open>func (fs *FS) delPath(path uint64)\<close>: \<^verbatim>\<open>fs.pathmap[path] = true\<close>.\<close>

definition delPath :: "FS \<Rightarrow> u64 \<Rightarrow> FS" where
  "delPath fs p = fs\<lparr>pathmap := AList.update p True (pathmap fs)\<rparr>"

text \<open>The reclaim set is the set of keys of \<^verbatim>\<open>pathmap\<close>.\<close>

definition reclaim :: "FS \<Rightarrow> u64 set" where
  "reclaim fs = fst ` set (pathmap fs)"

text \<open>
  A history of the allocator: the calls made so far, the state they lead to, and the set
  of live ids (returned by \<open>newPath\<close> and not yet passed to \<open>delPath\<close>). The
  parameter \<open>may_free\<close> says which ids the callers pass to \<open>delPath\<close>, given the state and
  the live ids of the moment.
\<close>

datatype call = NewPath | DelPath u64

inductive run ::
  "(FS \<Rightarrow> u64 set \<Rightarrow> u64 \<Rightarrow> bool) \<Rightarrow> FS \<Rightarrow> call list \<Rightarrow> FS \<Rightarrow> u64 set \<Rightarrow> bool"
  for may_free :: "FS \<Rightarrow> u64 set \<Rightarrow> u64 \<Rightarrow> bool" and fs0 :: FS where
  run_start: "run may_free fs0 [] fs0 {}"
| run_NewPath:
    "run may_free fs0 cs fs live \<Longrightarrow> newPath fs (Inr p) fs' \<Longrightarrow>
     run may_free fs0 (cs @ [NewPath]) fs' (insert p live)"
| run_NewPath_fails:
    "run may_free fs0 cs fs live \<Longrightarrow> newPath fs (Inl e) fs' \<Longrightarrow>
     run may_free fs0 (cs @ [NewPath]) fs' live"
| run_DelPath:
    "run may_free fs0 cs fs live \<Longrightarrow> may_free fs live p \<Longrightarrow>
     run may_free fs0 (cs @ [DelPath p]) (delPath fs p) (live - {p})"

text \<open>
  Three disciplines of the callers: \<open>delPath\<close> is passed any id at all; only ids below
  the counter, which are the ids issued so far, those of the four startup nodes included;
  only ids that are live.
\<close>

definition any_id :: "FS \<Rightarrow> u64 set \<Rightarrow> u64 \<Rightarrow> bool" where
  "any_id fs live p \<longleftrightarrow> True"

definition issued :: "FS \<Rightarrow> u64 set \<Rightarrow> u64 \<Rightarrow> bool" where
  "issued fs live p \<longleftrightarrow> p < path fs"

definition live_id :: "FS \<Rightarrow> u64 set \<Rightarrow> u64 \<Rightarrow> bool" where
  "live_id fs live p \<longleftrightarrow> p \<in> live"

subsection \<open>Building the tree\<close>

text \<open>
  Modelled from the spec: \<^verbatim>\<open>newNode(fs, name, uid, gid, perm, path, file)\<close> is defined
  outside fs.go. It allocates a node holding its arguments, with no parent yet, no children
  and version zero. The first argument is the back-pointer to the server, which a node
  needs to reach the allocator; the model passes the store instead.
\<close>

definition newNode ::
  "store \<Rightarrow> string \<Rightarrow> string \<Rightarrow> string \<Rightarrow> Perm \<Rightarrow> u64 \<Rightarrow> provider \<Rightarrow> ref \<times> store" where
  "newNode s name uid' gid perm p f =
     alloc s \<lparr>nname = name, nuid = uid', ngid = gid, nmode = perm, npath = p, nvers = 0,
              parent = None, children = Map.empty, nfile = f\<rparr>"

text \<open>
  Modelled from the spec: \<^verbatim>\<open>newGroup(owner)\<close> is defined outside fs.go. At startup the
  identity store holds the well-known anonymous identity and the host identity, each under
  its own name.
\<close>

definition newGroup :: "string \<Rightarrow> ugroup" where
  "newGroup owner = [''none'' \<mapsto> \<lparr>Name = ''none''\<rparr>, owner \<mapsto> \<lparr>Name = owner\<rparr>]"

text \<open>
  Modelled from the spec: \<^verbatim>\<open>(*group).Get\<close> is defined outside fs.go. It returns the
  identity stored under a user name, or the zero value of the struct and an error when
  there is none.
\<close>

definition Get :: "ugroup \<Rightarrow> string \<Rightarrow> user \<times> error option" where
  "Get g uname = (case g uname of
                    Some u \<Rightarrow> (u, None)
                  | None \<Rightarrow> (\<lparr>Name = []\<rparr>, Some UnknownUser))"

text \<open>
  \<^verbatim>\<open>func New(hostowner string) *FS\<close>. The result is the server record and the store
  holding its four nodes. The task started by \<^verbatim>\<open>go fs.newFid(fs.fidnew)\<close> is \<open>newFid\<close>
  below.
\<close>

definition New :: "string \<Rightarrow> FS \<times> store" where
  "New hostowner' =
    (let owner = (if hostowner' = [] then ''adm'' else hostowner');
         (root', s) = newNode store0 ''/'' owner ''adm'' (octal [7, 5, 5] OR DMDIR) 0 NoProvider;
         (adm, s) = newNode s ''adm'' ''adm'' ''adm'' (octal [7, 7, 0] OR DMDIR) 1 NoProvider;
         (group', s) = newNode s ''group'' ''adm'' ''adm'' (octal [6, 6, 0]) 2 GroupProvider;
         (ctl, s) = newNode s ''ctl'' ''adm'' ''adm'' (octal [2, 2, 0]) 3 CtlProvider;
         s = set_child s root' ''adm'' adm;
         s = set_child s adm ''group'' group';
         s = set_child s adm ''ctl'' ctl;
         s = set_parent s root' root';
         s = set_parent s adm root';
         s = set_parent s group' adm;
         s = set_parent s ctl adm
     in (\<lparr>path = 4, pathmap = [], root = root', fs_group = newGroup owner,
          hostowner = owner, chatty = False\<rparr>, s))"

subsection \<open>Fids and the fid-minting task\<close>

text \<open>
  Modelled from the spec: the Fid struct is declared outside fs.go. fs.go names its fields
  \<^verbatim>\<open>num\<close>, \<^verbatim>\<open>uid\<close> and \<^verbatim>\<open>node\<close>; the spec adds the open mode, which is "none" until the
  fid is opened. A composite literal leaves the fields it does not name at their zero
  value.
\<close>

record Fid =
  num :: u32
  uid :: string
  node :: ref
  omode :: "u8 option"

text \<open>
  \<^verbatim>\<open>func (fs *FS) newFid(fidnew <-chan (chan *Fid))\<close>. The task receives reply channels
  one at a time; \<open>chans\<close> is the sequence it receives, and the result is the sequence of
  its channel operations.
\<close>

datatype chan_op = Send nat Fid | Close nat

fun newFid :: "FS \<Rightarrow> nat list \<Rightarrow> chan_op list" where
  "newFid fs [] = []"
| "newFid fs (ch # chans) =
     Send ch \<lparr>num = 0, uid = ''none'', node = root fs, omode = None\<rparr> # Close ch # newFid fs chans"

text \<open>The channel an operation of the task acts on.\<close>

definition chan_of :: "chan_op \<Rightarrow> nat" where
  "chan_of op = (case op of Send ch _ \<Rightarrow> ch | Close ch \<Rightarrow> ch)"

subsection \<open>Path names\<close>

text \<open>\<^verbatim>\<open>strings.Split(s, "/")\<close> of the Go library: the pieces between the slashes.\<close>

fun strings_Split :: "string \<Rightarrow> string list" where
  "strings_Split [] = [[]]"
| "strings_Split (c # cs) =
     (if c = CHR ''/'' then [] # strings_Split cs
      else (case strings_Split cs of
              [] \<Rightarrow> [[c]]
            | w # ws \<Rightarrow> (c # w) # ws))"

text \<open>\<^verbatim>\<open>func split(path string) []string\<close>.\<close>

definition split :: "string \<Rightarrow> string list" where
  "split p =
     (if length p = 0 \<or> p = ''/'' \<or> p = ''.'' then []
      else strings_Split (if length p > 0 \<and> hd p = CHR ''/'' then tl p else p))"

text \<open>
  \<^verbatim>\<open>path.Clean\<close>, \<^verbatim>\<open>path.Dir\<close> and \<^verbatim>\<open>path.Base\<close> of the Go library, by the rules of their
  documentation. \<open>clean_elems\<close> goes through the elements of the path: an empty element
  and \<^verbatim>\<open>.\<close> are dropped; \<^verbatim>\<open>..\<close> removes the element before it, is dropped at the root of
  a rooted path, and is kept at the start of a relative one.
\<close>

fun clean_elems :: "bool \<Rightarrow> string list \<Rightarrow> string list \<Rightarrow> string list" where
  "clean_elems rooted [] out = rev out"
| "clean_elems rooted (e # es) out =
     (if e = [] \<or> e = ''.'' then clean_elems rooted es out
      else if e = ''..'' then
        (case out of
           [] \<Rightarrow> if rooted then clean_elems rooted es [] else clean_elems rooted es [e]
         | t # ts \<Rightarrow> if t = ''..'' then clean_elems rooted es (e # out)
                     else clean_elems rooted es ts)
      else clean_elems rooted es (e # out))"

fun join_slash :: "string list \<Rightarrow> string" where
  "join_slash [] = []"
| "join_slash [e] = e"
| "join_slash (e # f # es) = e @ ''/'' @ join_slash (f # es)"

definition path_Clean :: "string \<Rightarrow> string" where
  "path_Clean p =
     (if p = [] then ''.''
      else let rooted = (hd p = CHR ''/'');
               out = (if rooted then ''/'' else []) @ join_slash (clean_elems rooted (strings_Split p) [])
           in if out = [] then ''.'' else out)"

definition path_Split :: "string \<Rightarrow> string \<times> string" where
  "path_Split p = (rev (dropWhile (\<lambda>c. c \<noteq> CHR ''/'') (rev p)),
                   rev (takeWhile (\<lambda>c. c \<noteq> CHR ''/'') (rev p)))"

definition path_Dir :: "string \<Rightarrow> string" where
  "path_Dir p = path_Clean (fst (path_Split p))"

definition path_Base :: "string \<Rightarrow> string" where
  "path_Base p =
     (if p = [] then ''.''
      else let q = snd (path_Split (rev (dropWhile (\<lambda>c. c = CHR ''/'') (rev p))))
           in if q = [] then ''/'' else q)"

subsection \<open>Walking the tree\<close>

text \<open>
  Modelled from the spec: \<^verbatim>\<open>walk(root, path, fn)\<close>, the tree walk that \<^verbatim>\<open>fs.walk\<close> calls,
  is defined outside fs.go. It resolves the child names one after the other, starting at
  \<open>n\<close>; after each step it calls \<open>fn\<close> with the node reached and the names still to
  resolve, and it stops with NotFound at the first name that is not a child. The function
  literal that \<^verbatim>\<open>fs.walk\<close> passes assigns to a variable of the caller, so \<open>fn\<close> passes
  that variable along.
\<close>

fun walk ::
  "store \<Rightarrow> ref \<Rightarrow> string list \<Rightarrow> (ref \<Rightarrow> string list \<Rightarrow> 'a \<Rightarrow> error option \<times> 'a) \<Rightarrow> 'a
     \<Rightarrow> error option \<times> 'a" where
  "walk s n [] fn a = (None, a)"
| "walk s n (name # names) fn a =
     (case children (cells s n) name of
        None \<Rightarrow> (Some NotFound, a)
      | Some c \<Rightarrow>
          (case fn c names a of
             (Some err, a') \<Rightarrow> (Some err, a')
           | (None, a') \<Rightarrow> walk s c names fn a'))"

text \<open>
  \<^verbatim>\<open>func (fs *FS) walk(name string) (*node, error)\<close>. The variable \<^verbatim>\<open>base\<close> starts as a
  pointer to a fresh \<^verbatim>\<open>node{}\<close>: \<open>None\<close> stands for that pointer, and the fresh node is
  put into the store only where it is returned.
\<close>

definition fs_walk :: "store \<Rightarrow> FS \<Rightarrow> string \<Rightarrow> (error + ref) \<times> store" where
  "fs_walk s fs name =
     (let root' = root fs;
          p = split name
      in if length p = 0 then (Inr (root fs), s)
         else (case walk s root' p (\<lambda>n p' base. (None, if length p' = 0 then Some n else base)) None of
                 (Some err, base) \<Rightarrow> (Inl err, s)
               | (None, Some n) \<Rightarrow> (Inr n, s)
               | (None, None) \<Rightarrow> (let (b, s') = alloc s node0 in (Inr b, s'))))"

text \<open>
  What it means for a list of names to resolve to a node, in the words of the spec: each
  name is a child of the node that the names before it lead to. This is the reference
  that the walk of the source is compared with.
\<close>

fun resolve :: "store \<Rightarrow> ref \<Rightarrow> string list \<Rightarrow> ref option" where
  "resolve s n [] = Some n"
| "resolve s n (name # names) =
     (case children (cells s n) name of
        None \<Rightarrow> None
      | Some c \<Rightarrow> resolve s c names)"

subsection \<open>The local facade\<close>

text \<open>\<^verbatim>\<open>func (fs *FS) Attach(uname, aname string) (*Fid, error)\<close>.\<close>

definition Attach :: "store \<Rightarrow> FS \<Rightarrow> string \<Rightarrow> string \<Rightarrow> (error + Fid) \<times> store" where
  "Attach s fs uname aname =
     (let (user', err) = Get (fs_group fs) uname;
          user' = (case err of Some _ \<Rightarrow> fst (Get (fs_group fs) ''none'') | None \<Rightarrow> user');
          uid' = Name user';
          aname' = path_Clean aname;
          (r, s') = fs_walk s fs aname'
      in case r of
           Inl err \<Rightarrow> (Inl err, s')
         | Inr node' \<Rightarrow> (Inr \<lparr>num = 0, uid = uid', node = node', omode = None\<rparr>, s'))"

text \<open>
  \<^verbatim>\<open>Create\<close>, \<^verbatim>\<open>Open\<close> and \<^verbatim>\<open>Remove\<close> hand the work to methods of the node and of the fid
  that are defined outside fs.go: \<^verbatim>\<open>(*node).Create\<close>, \<^verbatim>\<open>(*node).Close\<close>, \<^verbatim>\<open>(*Fid).Open\<close> and
  \<^verbatim>\<open>(*Fid).Remove\<close>. These methods check permissions and change the tree and the
  allocator, so each is a parameter here: a function of the store and the server record.
  A call of \<^verbatim>\<open>panic\<close> ends the operation without a result.
\<close>

datatype 'a outcome = Returns 'a | Panics error

type_synonym world = "store \<times> FS"

type_synonym node_Create = "world \<Rightarrow> ref \<Rightarrow> string \<Rightarrow> string \<Rightarrow> u8 \<Rightarrow> Perm \<Rightarrow> (error + ref) \<times> world"
type_synonym node_Close = "world \<Rightarrow> ref \<Rightarrow> world"
type_synonym fid_Open = "world \<Rightarrow> Fid \<Rightarrow> u8 \<Rightarrow> error option \<times> Fid \<times> world"
type_synonym fid_Remove = "world \<Rightarrow> Fid \<Rightarrow> error option \<times> world"

text \<open>\<^verbatim>\<open>func (fs *FS) Create(name string, mode uint8, perm Perm) (*Fid, error)\<close>.\<close>

definition Create ::
  "node_Create \<Rightarrow> node_Close \<Rightarrow> world \<Rightarrow> string \<Rightarrow> u8 \<Rightarrow> Perm \<Rightarrow> ((error + Fid) \<times> world) outcome" where
  "Create nodeCreate nodeClose w name mode perm =
     (let (s, fs) = w;
          (user', err) = Get (fs_group fs) (hostowner fs)
      in case err of
           Some e \<Rightarrow> Panics e
         | None \<Rightarrow>
            (let uid' = Name user';
                 name1 = path_Clean name;
                 dname = path_Dir name1;
                 name2 = path_Base name1;
                 (r, s') = fs_walk s fs dname
             in case r of
                  Inl e \<Rightarrow> Returns (Inl e, (s', fs))
                | Inr dir \<Rightarrow>
                   (let (r', w') = nodeCreate (s', fs) dir uid' name2 mode perm;
                        w'' = nodeClose w' dir
                    in case r' of
                         Inl e \<Rightarrow> Returns (Inl e, w'')
                       | Inr node' \<Rightarrow>
                           Returns (Inr \<lparr>num = 0, uid = uid', node = node', omode = None\<rparr>, w''))))"

text \<open>\<^verbatim>\<open>func (fs *FS) Open(name string, mode uint8) (*Fid, error)\<close>.\<close>

definition Open :: "fid_Open \<Rightarrow> world \<Rightarrow> string \<Rightarrow> u8 \<Rightarrow> ((error + Fid) \<times> world) outcome" where
  "Open fidOpen w name mode =
     (let (s, fs) = w;
          (user', err) = Get (fs_group fs) (hostowner fs)
      in case err of
           Some e \<Rightarrow> Panics e
         | None \<Rightarrow>
            (let uid' = Name user';
                 name1 = path_Clean name;
                 (r, s') = fs_walk s fs name1
             in case r of
                  Inl e \<Rightarrow> Returns (Inl e, (s', fs))
                | Inr node' \<Rightarrow>
                   (let fid = \<lparr>num = 0, uid = uid', node = node', omode = None\<rparr>;
                        (err', fid', w') = fidOpen (s', fs) fid mode
                    in case err' of
                         Some e \<Rightarrow> Returns (Inl e, w')
                       | None \<Rightarrow> Returns (Inr fid', w'))))"

text \<open>\<^verbatim>\<open>func (fs *FS) Remove(name string) error\<close>.\<close>

definition Remove :: "fid_Remove \<Rightarrow> world \<Rightarrow> string \<Rightarrow> (error option \<times> world) outcome" where
  "Remove fidRemove w name =
     (let (s, fs) = w;
          (user', err) = Get (fs_group fs) (hostowner fs)
      in case err of
           Some e \<Rightarrow> Panics e
         | None \<Rightarrow>
            (let uid' = Name user';
                 name1 = path_Clean name;
                 (r, s') = fs_walk s fs name1
             in case r of
                  Inl e \<Rightarrow> Returns (Some e, (s', fs))
                | Inr node' \<Rightarrow>
                   Returns (fidRemove (s', fs) \<lparr>num = 0, uid = uid', node = node', omode = None\<rparr>)))"

section \<open>Properties\<close>

subsection \<open>The path allocator\<close>

lemma reclaim_empty: "reclaim fs = {} \<longleftrightarrow> pathmap fs = []"
  by (simp add: reclaim_def)

lemma reclaim_delete:
  "reclaim (fs\<lparr>pathmap := AList.delete p (pathmap fs)\<rparr>) = reclaim fs - {p}"
  by (auto simp: reclaim_def AList.delete_eq image_iff)

lemma reclaim_delPath: "reclaim (delPath fs p) = insert p (reclaim fs)"
  by (simp add: reclaim_def delPath_def dom_update)

lemma bump_no_wrap: "x \<noteq> maxPath \<Longrightarrow> unat (x + 1) = unat x + 1"
proof -
  assume "x \<noteq> maxPath"
  moreover have "maxPath = - 1" unfolding maxPath_def by simp
  ultimately have "x \<noteq> - 1" by simp
  then have "x + 1 \<noteq> 0" by (simp add: eq_neg_iff_add_eq_0)
  then show ?thesis using unatSuc [of x] by (simp add: add.commute)
qed

lemma bump_less: "x \<noteq> maxPath \<Longrightarrow> x < x + 1"
  by (simp add: word_less_nat_alt bump_no_wrap)

text \<open>The three rules of \<open>newPath\<close>, read as the three branches of the source.\<close>

lemma newPath_iff:
  "newPath fs r fs' \<longleftrightarrow>
     (if pathmap fs \<noteq> [] then
        \<exists>p \<in> reclaim fs. r = Inr p \<and> fs' = fs\<lparr>pathmap := AList.delete p (pathmap fs)\<rparr>
      else if path fs = maxPath then r = Inl ResourceExhausted \<and> fs' = fs
      else r = Inr (path fs) \<and> fs' = fs\<lparr>path := path fs + 1\<rparr>)"
  by (force simp: newPath.simps reclaim_def)

text \<open>\<open>newPath\<close> always returns: some rule applies in every state.\<close>

lemma newPath_total: "\<exists>r fs'. newPath fs r fs'"
proof (cases "pathmap fs")
  case Nil
  then show ?thesis
    by (cases "path fs = maxPath") (blast intro: newPath_exhausted newPath_bump)+
next
  case (Cons a as)
  then have "(fst a, snd a) \<in> set (pathmap fs)" by simp
  then show ?thesis by (blast intro: newPath_reclaim)
qed

lemma New_fs:
  "fst (New ho) = \<lparr>path = 4, pathmap = [], root = 0,
                    fs_group = newGroup (if ho = [] then ''adm'' else ho),
                    hostowner = (if ho = [] then ''adm'' else ho), chatty = False\<rparr>"
  by (simp add: New_def newNode_def alloc_def store0_def Let_def)

lemma four_below_maxPath: "(4 :: u64) < maxPath" "(4 :: u64) \<noteq> maxPath"
  by (simp_all add: maxPath_def)

text \<open>
  Claim C1. Every call of \<open>newPath\<close> returns. If the reclaim set is not empty, any of its
  elements may be returned, the call returns one of them, and that element is removed from
  the reclaim set with nothing else changed. If the reclaim set is empty and the counter is
  below the ceiling \<open>2^64 - 1\<close>, the call returns the counter and increments it by one,
  without wrapping. If the reclaim set is empty and the counter is at the ceiling, the
  call returns the error ResourceExhausted.
\<close>

theorem newPath_spec:
  "(\<exists>r fs'. newPath fs r fs') \<and>
   (reclaim fs \<noteq> {} \<longrightarrow>
      (\<forall>p \<in> reclaim fs. newPath fs (Inr p) (fs\<lparr>pathmap := AList.delete p (pathmap fs)\<rparr>)) \<and>
      (\<forall>r fs'. newPath fs r fs' \<longrightarrow>
         (\<exists>p \<in> reclaim fs. r = Inr p \<and> reclaim fs' = reclaim fs - {p} \<and>
            fs' = fs\<lparr>pathmap := AList.delete p (pathmap fs)\<rparr>))) \<and>
   (reclaim fs = {} \<and> path fs < maxPath \<longrightarrow>
      (\<forall>r fs'. newPath fs r fs' \<longleftrightarrow> r = Inr (path fs) \<and> fs' = fs\<lparr>path := path fs + 1\<rparr>) \<and>
      unat (path fs + 1) = unat (path fs) + 1) \<and>
   (reclaim fs = {} \<and> path fs = maxPath \<longrightarrow>
      (\<forall>r fs'. newPath fs r fs' \<longleftrightarrow> r = Inl ResourceExhausted \<and> fs' = fs))"
proof (intro conjI impI)
  show "\<exists>r fs'. newPath fs r fs'"
    by (rule newPath_total)
next
  assume "reclaim fs \<noteq> {}"
  then have ne: "pathmap fs \<noteq> []" by (simp add: reclaim_empty)
  show "\<forall>p \<in> reclaim fs. newPath fs (Inr p) (fs\<lparr>pathmap := AList.delete p (pathmap fs)\<rparr>)"
    using ne by (auto simp: newPath_iff)
  show "\<forall>r fs'. newPath fs r fs' \<longrightarrow>
         (\<exists>p \<in> reclaim fs. r = Inr p \<and> reclaim fs' = reclaim fs - {p} \<and>
            fs' = fs\<lparr>pathmap := AList.delete p (pathmap fs)\<rparr>)"
    using ne by (auto simp: newPath_iff reclaim_delete)
next
  assume a: "reclaim fs = {} \<and> path fs < maxPath"
  then have e: "pathmap fs = []" and n: "path fs \<noteq> maxPath" by (auto simp: reclaim_empty)
  show "\<forall>r fs'. newPath fs r fs' \<longleftrightarrow> r = Inr (path fs) \<and> fs' = fs\<lparr>path := path fs + 1\<rparr>"
    using e n by (simp add: newPath_iff)
  show "unat (path fs + 1) = unat (path fs) + 1"
    using n by (rule bump_no_wrap)
next
  assume a: "reclaim fs = {} \<and> path fs = maxPath"
  then show "\<forall>r fs'. newPath fs r fs' \<longleftrightarrow> r = Inl ResourceExhausted \<and> fs' = fs"
    by (simp add: newPath_iff reclaim_empty)
qed

text \<open>
  The three cases on the server that \<open>New\<close> builds: with id 7 freed, \<open>newPath\<close> returns
  7; with nothing freed it returns the counter, 4; with the counter at the ceiling it
  fails.
\<close>

theorem newPath_spec_witness:
  "reclaim (delPath (fst (New ''glenda'')) 7) \<noteq> {} \<and>
   newPath (delPath (fst (New ''glenda'')) 7) (Inr 7) (fst (New ''glenda'')) \<and>
   reclaim (fst (New ''glenda'')) = {} \<and> path (fst (New ''glenda'')) < maxPath \<and>
   newPath (fst (New ''glenda'')) (Inr 4) (fst (New ''glenda'')\<lparr>path := 5\<rparr>) \<and>
   reclaim (fst (New ''glenda'')\<lparr>path := maxPath\<rparr>) = {} \<and>
   path (fst (New ''glenda'')\<lparr>path := maxPath\<rparr>) = maxPath \<and>
   newPath (fst (New ''glenda'')\<lparr>path := maxPath\<rparr>) (Inl ResourceExhausted)
     (fst (New ''glenda'')\<lparr>path := maxPath\<rparr>)"
  using newPath_spec [of "delPath (fst (New ''glenda'')) 7"]
        newPath_spec [of "fst (New ''glenda'')"]
        newPath_spec [of "fst (New ''glenda'')\<lparr>path := maxPath\<rparr>"]
  by (simp add: New_fs reclaim_def delPath_def four_below_maxPath)

text \<open>
  Claim C10. When \<open>newPath\<close> fails, the reclaim set was empty and the counter at the
  ceiling, the error is ResourceExhausted and the state is unchanged: the counter has not
  moved and the reclaim set is still empty. So after a \<open>delPath\<close> of any id, \<open>newPath\<close>
  succeeds and returns that id.
\<close>

theorem newPath_failure_keeps_state:
  "newPath fs (Inl e) fs' \<Longrightarrow>
     e = ResourceExhausted \<and> reclaim fs = {} \<and> path fs = maxPath \<and> fs' = fs \<and>
     (\<forall>p. (\<exists>fs''. newPath (delPath fs' p) (Inr p) fs'') \<and>
          (\<forall>r fs''. newPath (delPath fs' p) r fs'' \<longrightarrow> r = Inr p))"
  by (auto simp: newPath_iff reclaim_def delPath_def split: if_splits)

theorem newPath_failure_keeps_state_witness:
  "newPath (fst (New ''glenda'')\<lparr>path := maxPath\<rparr>) (Inl ResourceExhausted)
     (fst (New ''glenda'')\<lparr>path := maxPath\<rparr>) \<and>
   newPath (delPath (fst (New ''glenda'')\<lparr>path := maxPath\<rparr>) 9) (Inr 9)
     (fst (New ''glenda'')\<lparr>path := maxPath\<rparr>)"
proof -
  let ?fs = "fst (New ''glenda'')\<lparr>path := maxPath\<rparr>"
  have f: "newPath ?fs (Inl ResourceExhausted) ?fs"
    by (rule newPath_exhausted) (simp_all add: New_fs)
  from newPath_failure_keeps_state [OF f]
  obtain fs'' where "newPath (delPath ?fs 9) (Inr 9) fs''" by blast
  then have "newPath (delPath ?fs 9) (Inr 9) ?fs"
    by (simp add: newPath_iff delPath_def New_fs reclaim_def)
  with f show ?thesis by simp
qed

lemma run_disjoint:
  "run may_free fs0 cs fs live \<Longrightarrow> pathmap fs0 = [] \<Longrightarrow> live \<inter> reclaim fs = {}"
proof (induction rule: run.induct)
  case run_start
  then show ?case by simp
next
  case (run_NewPath cs fs live p fs')
  then have d: "live \<inter> reclaim fs = {}" by simp
  show ?case
  proof (cases "pathmap fs = []")
    case True
    with run_NewPath.hyps(2) have "pathmap fs' = []"
      by (auto simp: newPath_iff split: if_splits)
    then show ?thesis by (simp add: reclaim_def)
  next
    case False
    with run_NewPath.hyps(2) have "reclaim fs' = reclaim fs - {p}"
      by (auto simp: newPath_iff reclaim_delete)
    with d show ?thesis by auto
  qed
next
  case (run_NewPath_fails cs fs live e fs')
  then show ?case
    by (auto simp: newPath_iff split: if_splits)
next
  case (run_DelPath cs fs live p)
  then show ?case
    by (auto simp: reclaim_delPath)
qed

lemma path_delPath: "path (delPath fs p) = path fs"
  by (simp add: delPath_def)

lemma run_below_counter:
  "run issued fs0 cs fs live \<Longrightarrow> pathmap fs0 = [] \<Longrightarrow>
     (\<forall>p \<in> live \<union> reclaim fs. p < path fs)"
proof (induction rule: run.induct)
  case run_start
  then show ?case by (simp add: reclaim_def)
next
  case (run_NewPath cs fs live p fs')
  show ?case
  proof (cases "pathmap fs = []")
    case True
    with run_NewPath.hyps(2) have n: "path fs \<noteq> maxPath"
      and p: "p = path fs" and fs': "fs' = fs\<lparr>path := path fs + 1\<rparr>"
      by (auto simp: newPath_iff split: if_splits)
    have "path fs < path fs + 1" using n by (rule bump_less)
    moreover have "\<forall>q \<in> live \<union> reclaim fs. q < path fs"
      using run_NewPath.IH run_NewPath.prems by simp
    ultimately show ?thesis
      using p fs' by (auto simp: reclaim_def intro: less_trans)
  next
    case False
    with run_NewPath.hyps(2) have "p \<in> reclaim fs"
      and "fs' = fs\<lparr>pathmap := AList.delete p (pathmap fs)\<rparr>"
      by (auto simp: newPath_iff)
    moreover have "\<forall>q \<in> live \<union> reclaim fs. q < path fs"
      using run_NewPath.IH run_NewPath.prems by simp
    ultimately show ?thesis
      by (auto simp: reclaim_delete)
  qed
next
  case (run_NewPath_fails cs fs live e fs')
  then show ?case
    by (auto simp: newPath_iff split: if_splits)
next
  case (run_DelPath cs fs live p)
  then show ?case
    by (auto simp: reclaim_delPath issued_def path_delPath)
qed

lemma run_no_reissue:
  assumes "run issued fs0 cs fs live" and "pathmap fs0 = []" and "newPath fs (Inr p) fs'"
  shows "p \<notin> live"
proof (cases "pathmap fs = []")
  case True
  with assms(3) have "p = path fs" by (auto simp: newPath_iff split: if_splits)
  moreover have "\<forall>q \<in> live. q < path fs" using run_below_counter [OF assms(1,2)] by simp
  ultimately show ?thesis by auto
next
  case False
  with assms(3) have "p \<in> reclaim fs" by (auto simp: newPath_iff)
  then show ?thesis using run_disjoint [OF assms(1,2)] by auto
qed

text \<open>A live id is below the counter, so callers that free live ids only free issued ids.\<close>

lemma run_live_id_issued:
  "run live_id fs0 cs fs live \<Longrightarrow> pathmap fs0 = [] \<Longrightarrow> run issued fs0 cs fs live"
proof (induction rule: run.induct)
  case run_start
  show ?case by (rule run.run_start)
next
  case (run_NewPath cs fs live p fs')
  then show ?case by (blast intro: run.run_NewPath)
next
  case (run_NewPath_fails cs fs live e fs')
  then show ?case by (blast intro: run.run_NewPath_fails)
next
  case (run_DelPath cs fs live p)
  then have r: "run issued fs0 cs fs live" by simp
  have "p \<in> live" using run_DelPath.hyps(2) by (simp add: live_id_def)
  then have "issued fs live p"
    using run_below_counter [OF r run_DelPath.prems] by (simp add: issued_def)
  with r show ?case by (rule run.run_DelPath)
qed

text \<open>
  Claim C2, as amended. Along every sequence of \<open>newPath\<close> and \<open>delPath\<close> calls from the
  state that \<open>New\<close> builds, whatever ids \<open>delPath\<close> is passed, the live ids and the
  reclaim set are disjoint at every point. If every \<open>delPath\<close> was passed an id below the
  counter of the time (an id that has been issued), then every live id is below the
  counter and \<open>newPath\<close> never returns an id that is live. In particular both hold when
  \<open>delPath\<close> is only ever passed live ids.
\<close>

theorem allocator_live_ids:
  "(run any_id (fst (New ho)) cs fs live \<longrightarrow> live \<inter> reclaim fs = {}) \<and>
   (run issued (fst (New ho)) cs fs live \<longrightarrow>
      (\<forall>p \<in> live. issued fs live p) \<and> (\<forall>p fs'. newPath fs (Inr p) fs' \<longrightarrow> p \<notin> live)) \<and>
   (run live_id (fst (New ho)) cs fs live \<longrightarrow>
      live \<inter> reclaim fs = {} \<and> (\<forall>p fs'. newPath fs (Inr p) fs' \<longrightarrow> p \<notin> live))"
proof (intro conjI impI)
  have e: "pathmap (fst (New ho)) = []" by (simp add: New_fs)
  {
    assume "run any_id (fst (New ho)) cs fs live"
    then show "live \<inter> reclaim fs = {}" using e by (rule run_disjoint)
  }
  {
    assume r: "run issued (fst (New ho)) cs fs live"
    show "\<forall>p \<in> live. issued fs live p"
      using run_below_counter [OF r e] by (simp add: issued_def)
    show "\<forall>p fs'. newPath fs (Inr p) fs' \<longrightarrow> p \<notin> live"
      using run_no_reissue [OF r e] by blast
  }
  {
    assume r: "run live_id (fst (New ho)) cs fs live"
    then show "live \<inter> reclaim fs = {}" using e by (rule run_disjoint)
    have "run issued (fst (New ho)) cs fs live" using r e by (rule run_live_id_issued)
    then show "\<forall>p fs'. newPath fs (Inr p) fs' \<longrightarrow> p \<notin> live"
      using run_no_reissue [OF _ e] by blast
  }
qed

text \<open>
  A history on the new server: two ids are issued, 4 and 5; then 4, which is live, and 3,
  the id of a startup node, are freed. Afterwards 5 is live, the reclaim set holds 4 and 3,
  and \<open>newPath\<close> returns one of these two.
\<close>

lemma run_two_issued:
  "run may_free (fst (New ''glenda'')) [NewPath, NewPath] (fst (New ''glenda'')\<lparr>path := 6\<rparr>) {4, 5}"
proof -
  let ?fs = "fst (New ''glenda'')"
  have "newPath ?fs (Inr 4) (?fs\<lparr>path := 5\<rparr>)"
    by (simp add: newPath_iff New_fs four_below_maxPath)
  from run_NewPath [OF run_start this]
  have "run may_free ?fs [NewPath] (?fs\<lparr>path := 5\<rparr>) {4}" by simp
  moreover have "newPath (?fs\<lparr>path := 5\<rparr>) (Inr 5) (?fs\<lparr>path := 6\<rparr>)"
    by (simp add: newPath_iff New_fs maxPath_def)
  ultimately have "run may_free ?fs ([NewPath] @ [NewPath]) (?fs\<lparr>path := 6\<rparr>) (insert 5 {4})"
    by (rule run_NewPath)
  then show ?thesis by (simp add: insert_commute)
qed

lemma run_free_live:
  assumes "may_free (fst (New ''glenda'')\<lparr>path := 6\<rparr>) {4, 5} 4"
  shows "run may_free (fst (New ''glenda'')) [NewPath, NewPath, DelPath 4]
           (fst (New ''glenda'')\<lparr>path := 6, pathmap := [(4, True)]\<rparr>) {5}"
proof -
  from run_DelPath [where may_free = may_free, OF run_two_issued assms]
  show ?thesis by (simp add: delPath_def New_fs)
qed

lemma run_free_startup:
  assumes "may_free (fst (New ''glenda'')\<lparr>path := 6\<rparr>) {4, 5} 4"
    and "may_free (fst (New ''glenda'')\<lparr>path := 6, pathmap := [(4, True)]\<rparr>) {5} 3"
  shows "run may_free (fst (New ''glenda'')) [NewPath, NewPath, DelPath 4, DelPath 3]
           (fst (New ''glenda'')\<lparr>path := 6, pathmap := [(4, True), (3, True)]\<rparr>) {5}"
proof -
  from run_DelPath [where may_free = may_free, OF run_free_live [where may_free = may_free, OF assms(1)] assms(2)]
  show ?thesis by (simp add: delPath_def New_fs)
qed

theorem allocator_live_ids_witness:
  "run any_id (fst (New ''glenda'')) [NewPath, NewPath, DelPath 4, DelPath 3]
     (fst (New ''glenda'')\<lparr>path := 6, pathmap := [(4, True), (3, True)]\<rparr>) {5} \<and>
   reclaim (fst (New ''glenda'')\<lparr>path := 6, pathmap := [(4, True), (3, True)]\<rparr>) = {4, 3} \<and>
   {5} \<inter> reclaim (fst (New ''glenda'')\<lparr>path := 6, pathmap := [(4, True), (3, True)]\<rparr>) = {} \<and>
   run issued (fst (New ''glenda'')) [NewPath, NewPath, DelPath 4, DelPath 3]
     (fst (New ''glenda'')\<lparr>path := 6, pathmap := [(4, True), (3, True)]\<rparr>) {5} \<and>
   issued (fst (New ''glenda'')\<lparr>path := 6, pathmap := [(4, True), (3, True)]\<rparr>) {5} 5 \<and>
   newPath (fst (New ''glenda'')\<lparr>path := 6, pathmap := [(4, True), (3, True)]\<rparr>) (Inr 3)
     (fst (New ''glenda'')\<lparr>path := 6, pathmap := [(4, True)]\<rparr>) \<and>
   (3 :: u64) \<notin> {5} \<and>
   run live_id (fst (New ''glenda'')) [NewPath, NewPath, DelPath 4]
     (fst (New ''glenda'')\<lparr>path := 6, pathmap := [(4, True)]\<rparr>) {5} \<and>
   newPath (fst (New ''glenda'')\<lparr>path := 6, pathmap := [(4, True)]\<rparr>) (Inr 4)
     (fst (New ''glenda'')\<lparr>path := 6\<rparr>) \<and>
   (4 :: u64) \<notin> {5}"
proof -
  let ?fs = "fst (New ''glenda'')"
  let ?fs2 = "?fs\<lparr>path := 6, pathmap := [(4, True), (3, True)]\<rparr>"
  let ?fs1 = "?fs\<lparr>path := 6, pathmap := [(4, True)]\<rparr>"
  have ra: "run any_id ?fs [NewPath, NewPath, DelPath 4, DelPath 3] ?fs2 {5}"
    by (rule run_free_startup) (simp_all add: any_id_def)
  have ri: "run issued ?fs [NewPath, NewPath, DelPath 4, DelPath 3] ?fs2 {5}"
    by (rule run_free_startup) (simp_all add: issued_def New_fs)
  have rl: "run live_id ?fs [NewPath, NewPath, DelPath 4] ?fs1 {5}"
    by (rule run_free_live) (simp add: live_id_def)
  have n3: "newPath ?fs2 (Inr 3) ?fs1"
    by (simp add: newPath_iff New_fs reclaim_def)
  have n4: "newPath ?fs1 (Inr 4) (?fs\<lparr>path := 6\<rparr>)"
    by (simp add: newPath_iff New_fs reclaim_def)
  have rc: "reclaim ?fs2 = {4, 3}"
    by (simp add: reclaim_def)
  show ?thesis
    using allocator_live_ids [of "''glenda''" "[NewPath, NewPath, DelPath 4, DelPath 3]" ?fs2 "{5}"]
      allocator_live_ids [of "''glenda''" "[NewPath, NewPath, DelPath 4]" ?fs1 "{5}"]
      ra ri rl n3 n4 rc
    by simp
qed

text \<open>
  Without that condition the second half fails: \<open>delPath 4\<close> on the new server puts the
  counter's own value into the reclaim set, \<open>newPath\<close> then returns 4 from the reclaim
  set, and the next \<open>newPath\<close> returns 4 again, from the counter, while 4 is live.
\<close>

theorem reissue_counterexample:
  "run any_id (fst (New ''glenda'')) [DelPath 4, NewPath] (fst (New ''glenda'')) {4} \<and>
   newPath (fst (New ''glenda'')) (Inr 4) (fst (New ''glenda'')\<lparr>path := 5\<rparr>) \<and>
   (4 :: u64) \<in> {4}"
proof -
  let ?fs = "fst (New ''glenda'')"
  have "any_id ?fs {} 4" by (simp add: any_id_def)
  from run_DelPath [where may_free = any_id and p = 4, OF run_start this]
  have d: "run any_id ?fs [DelPath 4] (delPath ?fs 4) {}" by simp
  have "newPath (delPath ?fs 4) (Inr 4) ?fs"
    by (simp add: newPath_iff delPath_def New_fs reclaim_def)
  from run_NewPath [OF d this] have "run any_id ?fs [DelPath 4, NewPath] ?fs {4}" by simp
  moreover have "newPath ?fs (Inr 4) (?fs\<lparr>path := 5\<rparr>)"
    by (simp add: newPath_iff New_fs four_below_maxPath)
  ultimately show ?thesis by simp
qed

subsection \<open>The tree that New builds\<close>

lemma newNode_simps:
  "fst (newNode s name u g perm p f) = next_ref s"
  "next_ref (snd (newNode s name u g perm p f)) = Suc (next_ref s)"
  "cells (snd (newNode s name u g perm p f)) r =
     (if r = next_ref s
      then \<lparr>nname = name, nuid = u, ngid = g, nmode = perm, npath = p, nvers = 0,
            parent = None, children = Map.empty, nfile = f\<rparr>
      else cells s r)"
  by (simp_all add: newNode_def alloc_def)

lemma set_child_simps:
  "next_ref (set_child s d name c) = next_ref s"
  "cells (set_child s d name c) r =
     (if r = d then (cells s d)\<lparr>children := (children (cells s d))(name \<mapsto> c)\<rparr> else cells s r)"
  by (simp_all add: set_child_def)

lemma set_parent_simps:
  "next_ref (set_parent s n p) = next_ref s"
  "cells (set_parent s n p) r =
     (if r = n then (cells s n)\<lparr>parent := Some p\<rparr> else cells s r)"
  by (simp_all add: set_parent_def)

lemma store0_simps: "next_ref store0 = 0" "cells store0 r = node0"
  by (simp_all add: store0_def)

lemmas New_defs = New_def Let_def split_beta newNode_simps set_child_simps set_parent_simps store0_simps
  numeral_2_eq_2 numeral_3_eq_3

lemma New_root_node:
  "cells (snd (New ho)) 0 =
     \<lparr>nname = ''/'', nuid = (if ho = [] then ''adm'' else ho), ngid = ''adm'',
      nmode = octal [7, 5, 5] OR DMDIR, npath = 0, nvers = 0, parent = Some 0,
      children = [''adm'' \<mapsto> 1], nfile = NoProvider\<rparr>"
  by (simp add: New_defs)

lemma New_adm_node:
  "cells (snd (New ho)) 1 =
     \<lparr>nname = ''adm'', nuid = ''adm'', ngid = ''adm'',
      nmode = octal [7, 7, 0] OR DMDIR, npath = 1, nvers = 0, parent = Some 0,
      children = [''group'' \<mapsto> 2, ''ctl'' \<mapsto> 3], nfile = NoProvider\<rparr>"
  by (simp add: New_defs)

lemmas New_adm_node' = New_adm_node [unfolded One_nat_def]

lemma New_group_node:
  "cells (snd (New ho)) 2 =
     \<lparr>nname = ''group'', nuid = ''adm'', ngid = ''adm'',
      nmode = octal [6, 6, 0], npath = 2, nvers = 0, parent = Some 1,
      children = Map.empty, nfile = GroupProvider\<rparr>"
  by (simp add: New_defs)

lemma New_ctl_node:
  "cells (snd (New ho)) 3 =
     \<lparr>nname = ''ctl'', nuid = ''adm'', ngid = ''adm'',
      nmode = octal [2, 2, 0], npath = 3, nvers = 0, parent = Some 1,
      children = Map.empty, nfile = CtlProvider\<rparr>"
  by (simp add: New_defs)

lemma octal_values:
  "octal [7, 5, 5] = 0x1ED" "octal [7, 7, 0] = 0x1F8" "octal [6, 6, 0] = 0x1B0" "octal [2, 2, 0] = 0x90"
  by (simp_all add: octal_def)

lemmas mode_defs = grants_def triad_shift_def DMDIR_def DMREAD_def DMWRITE_def DMEXEC_def octal_values

lemma New_root: "root (fst (New ho)) = 0"
  by (simp add: New_fs)

lemma New_hostowner: "hostowner (fst (New ho)) = (if ho = [] then ''adm'' else ho)"
  by (simp add: New_fs)

text \<open>
  Claim C5, as amended. The mode of the root that \<open>New\<close> creates is \<open>0755\<close> with the
  directory bit: read, write and execute for the owner, read and execute but not write for
  the group and for the others. Its owner is the host identity that \<open>New\<close> configures,
  \<^verbatim>\<open>fs.hostowner\<close>: the string passed to \<open>New\<close>, or \<^verbatim>\<open>adm\<close> when that string is empty.
\<close>

theorem New_root_mode_and_owner:
  "nmode (cells (snd (New ho)) (root (fst (New ho)))) = octal [7, 5, 5] OR DMDIR \<and>
   octal [7, 5, 5] OR DMDIR = (0x800001ED :: Perm) \<and>
   (octal [7, 5, 5] OR DMDIR) AND DMDIR = DMDIR \<and>
   grants (octal [7, 5, 5] OR DMDIR) Owner DMREAD \<and>
   grants (octal [7, 5, 5] OR DMDIR) Owner DMWRITE \<and>
   grants (octal [7, 5, 5] OR DMDIR) Owner DMEXEC \<and>
   grants (octal [7, 5, 5] OR DMDIR) Group DMREAD \<and>
   \<not> grants (octal [7, 5, 5] OR DMDIR) Group DMWRITE \<and>
   grants (octal [7, 5, 5] OR DMDIR) Group DMEXEC \<and>
   grants (octal [7, 5, 5] OR DMDIR) Other DMREAD \<and>
   \<not> grants (octal [7, 5, 5] OR DMDIR) Other DMWRITE \<and>
   grants (octal [7, 5, 5] OR DMDIR) Other DMEXEC \<and>
   nuid (cells (snd (New ho)) (root (fst (New ho)))) = hostowner (fst (New ho)) \<and>
   hostowner (fst (New ho)) = (if ho = [] then ''adm'' else ho)"
  by (simp add: New_root New_root_node New_hostowner mode_defs)

theorem New_root_mode_and_owner_witness:
  "nmode (cells (snd (New ''glenda'')) (root (fst (New ''glenda'')))) = 0x800001ED \<and>
   nuid (cells (snd (New ''glenda'')) (root (fst (New ''glenda'')))) = ''glenda''"
  using New_root_mode_and_owner [of "''glenda''"] by simp

text \<open>
  As stated, with the owner being the string passed to \<open>New\<close>, the claim fails for the
  empty string: the root is then owned by \<^verbatim>\<open>adm\<close>.
\<close>

theorem New_root_owner_counterexample:
  "nuid (cells (snd (New [])) (root (fst (New [])))) = ''adm'' \<and>
   nuid (cells (snd (New [])) (root (fst (New [])))) \<noteq> []"
  by (simp add: New_root New_root_node)

text \<open>
  Claim C6, as amended. Under the root, \<open>New\<close> creates the directory \<^verbatim>\<open>adm\<close>, whose mode
  \<open>0770\<close> grants write permission to its owner and to its group and not to the others.
  Inside it are the file \<^verbatim>\<open>group\<close>, backed by the identity store as its provider, and the
  file \<^verbatim>\<open>ctl\<close>, backed by the control provider, whose mode \<open>0220\<close> grants no read
  permission to anybody and write permission to owner and group.
\<close>

theorem New_namespace:
  "children (cells (snd (New ho)) (root (fst (New ho)))) ''adm'' = Some 1 \<and>
   nmode (cells (snd (New ho)) 1) = octal [7, 7, 0] OR DMDIR \<and>
   (octal [7, 7, 0] OR DMDIR) AND DMDIR = DMDIR \<and>
   grants (octal [7, 7, 0] OR DMDIR) Owner DMWRITE \<and>
   grants (octal [7, 7, 0] OR DMDIR) Group DMWRITE \<and>
   \<not> grants (octal [7, 7, 0] OR DMDIR) Other DMWRITE \<and>
   children (cells (snd (New ho)) 1) ''group'' = Some 2 \<and>
   nfile (cells (snd (New ho)) 2) = GroupProvider \<and>
   children (cells (snd (New ho)) 1) ''ctl'' = Some 3 \<and>
   nfile (cells (snd (New ho)) 3) = CtlProvider \<and>
   nmode (cells (snd (New ho)) 3) = octal [2, 2, 0] \<and>
   \<not> grants (octal [2, 2, 0]) Owner DMREAD \<and>
   \<not> grants (octal [2, 2, 0]) Group DMREAD \<and>
   \<not> grants (octal [2, 2, 0]) Other DMREAD \<and>
   grants (octal [2, 2, 0]) Owner DMWRITE \<and>
   grants (octal [2, 2, 0]) Group DMWRITE"
  by (simp add: New_root New_root_node New_adm_node' New_group_node New_ctl_node mode_defs)

theorem New_namespace_witness:
  "children (cells (snd (New ''glenda'')) (root (fst (New ''glenda'')))) ''adm'' = Some 1 \<and>
   nmode (cells (snd (New ''glenda'')) 1) = 0x800001F8 \<and>
   nmode (cells (snd (New ''glenda'')) 3) = 0x90"
  using New_namespace [of "''glenda''"] by (simp add: mode_defs)

text \<open>
  As stated, with \<^verbatim>\<open>adm\<close> writable by its owner only, the claim fails: the mode of \<^verbatim>\<open>adm\<close>
  grants write permission to the group as well.
\<close>

theorem adm_group_writable_counterexample:
  "children (cells (snd (New ''glenda'')) (root (fst (New ''glenda'')))) ''adm'' = Some 1 \<and>
   nuid (cells (snd (New ''glenda'')) 1) = ''adm'' \<and>
   grants (nmode (cells (snd (New ''glenda'')) 1)) Group DMWRITE"
  by (simp add: New_root New_root_node New_adm_node' mode_defs)

text \<open>
  Claim C8. In the tree that \<open>New\<close> builds, the parent reference of the root is the root
  itself.
\<close>

theorem New_root_parent:
  "parent (cells (snd (New ho)) (root (fst (New ho)))) = Some (root (fst (New ho)))"
  by (simp add: New_root New_root_node)

subsection \<open>The fid-minting task\<close>

lemma newFid_concat:
  "newFid fs chans =
     concat (map (\<lambda>ch. [Send ch \<lparr>num = 0, uid = ''none'', node = root fs, omode = None\<rparr>, Close ch]) chans)"
  by (induction chans) simp_all

lemma chan_of_simps: "chan_of (Send ch fid) = ch" "chan_of (Close ch) = ch"
  by (simp_all add: chan_of_def)

lemma newFid_filter_notin:
  "ch \<notin> set chans \<Longrightarrow> filter (\<lambda>op. chan_of op = ch) (newFid fs chans) = []"
  by (induction chans) (auto simp: chan_of_simps)

lemma newFid_filter:
  "distinct chans \<Longrightarrow> ch \<in> set chans \<Longrightarrow>
     filter (\<lambda>op. chan_of op = ch) (newFid fs chans) =
       [Send ch \<lparr>num = 0, uid = ''none'', node = root fs, omode = None\<rparr>, Close ch]"
  by (induction chans) (auto simp: chan_of_simps newFid_filter_notin)

text \<open>
  Claim C9. For every reply channel it receives, the task sends one fid and then closes
  the channel, and nothing else. Every fid it sends is the same value: number 0, uid
  \<^verbatim>\<open>none\<close>, bound to the root of the file system, not opened. So when the channels are
  distinct, the operations on each of them are exactly one send of that fid followed by
  the close.
\<close>

theorem newFid_templates:
  "newFid fs chans =
     concat (map (\<lambda>ch. [Send ch \<lparr>num = 0, uid = ''none'', node = root fs, omode = None\<rparr>, Close ch]) chans) \<and>
   (\<forall>ch fid. Send ch fid \<in> set (newFid fs chans) \<longrightarrow>
      fid = \<lparr>num = 0, uid = ''none'', node = root fs, omode = None\<rparr>) \<and>
   (distinct chans \<longrightarrow>
      (\<forall>ch \<in> set chans. filter (\<lambda>op. chan_of op = ch) (newFid fs chans) =
         [Send ch \<lparr>num = 0, uid = ''none'', node = root fs, omode = None\<rparr>, Close ch]))"
proof (intro conjI)
  show "newFid fs chans =
     concat (map (\<lambda>ch. [Send ch \<lparr>num = 0, uid = ''none'', node = root fs, omode = None\<rparr>, Close ch]) chans)"
    by (rule newFid_concat)
  show "\<forall>ch fid. Send ch fid \<in> set (newFid fs chans) \<longrightarrow>
      fid = \<lparr>num = 0, uid = ''none'', node = root fs, omode = None\<rparr>"
    by (auto simp: newFid_concat)
  show "distinct chans \<longrightarrow>
      (\<forall>ch \<in> set chans. filter (\<lambda>op. chan_of op = ch) (newFid fs chans) =
         [Send ch \<lparr>num = 0, uid = ''none'', node = root fs, omode = None\<rparr>, Close ch])"
    by (simp add: newFid_filter)
qed

theorem newFid_templates_witness:
  "distinct [5, 7 :: nat] \<and>
   newFid (fst (New ''glenda'')) [5, 7] =
     [Send 5 \<lparr>num = 0, uid = ''none'', node = 0, omode = None\<rparr>, Close 5,
      Send 7 \<lparr>num = 0, uid = ''none'', node = 0, omode = None\<rparr>, Close 7] \<and>
   filter (\<lambda>op. chan_of op = 7) (newFid (fst (New ''glenda'')) [5, 7]) =
     [Send 7 \<lparr>num = 0, uid = ''none'', node = root (fst (New ''glenda'')), omode = None\<rparr>, Close 7]"
  using newFid_templates [of "fst (New ''glenda'')" "[5, 7]"]
  by (simp add: New_root chan_of_simps)

subsection \<open>Attach and the walk from the root\<close>

text \<open>
  The walk that \<open>fs_walk\<close> runs, with the function literal of the source, finds the node
  that the names resolve to, and fails with NotFound exactly when they do not resolve.
\<close>

lemma walk_resolve:
  "walk s n p (\<lambda>n p' base. (None, if p' = [] then Some n else base)) a =
     (case resolve s n p of
        None \<Rightarrow> (Some NotFound, a)
      | Some m \<Rightarrow> (None, if p = [] then a else Some m))"
proof (induction p arbitrary: n a)
  case Nil
  then show ?case by simp
next
  case (Cons name names)
  show ?case
  proof (cases "children (cells s n) name")
    case None
    then show ?thesis by simp
  next
    case (Some c)
    show ?thesis
    proof (cases "names = []")
      case True
      with Some show ?thesis by simp
    next
      case False
      with Some show ?thesis by (simp add: Cons.IH split: option.splits)
    qed
  qed
qed

lemma fs_walk_resolve:
  "fs_walk s fs name =
     (case resolve s (root fs) (split name) of
        None \<Rightarrow> (Inl NotFound, s)
      | Some n \<Rightarrow> (Inr n, s))"
  by (cases "split name") (simp_all add: fs_walk_def walk_resolve Let_def split: option.splits)

lemma Get_simps:
  "g uname = Some u \<Longrightarrow> Get g uname = (u, None)"
  "g uname = None \<Longrightarrow> Get g uname = (\<lparr>Name = []\<rparr>, Some UnknownUser)"
  by (simp_all add: Get_def)

lemma Attach_resolve:
  "Attach s fs uname aname =
     (case resolve s (root fs) (split (path_Clean aname)) of
        None \<Rightarrow> (Inl NotFound, s)
      | Some n \<Rightarrow>
          (Inr \<lparr>num = 0,
                uid = (case fs_group fs uname of
                         Some u \<Rightarrow> Name u
                       | None \<Rightarrow> Name (fst (Get (fs_group fs) ''none''))),
                node = n, omode = None\<rparr>, s))"
  by (simp add: Attach_def fs_walk_resolve Get_def Let_def split: option.splits)

text \<open>
  Claim C7. For every uname and aname, \<open>Attach\<close> walks from the root along the names of
  the cleaned aname. If they do not resolve to a node, it returns the error NotFound and no
  fid. If they resolve to a node, it returns a fid made for this call: bound to that node,
  with fid number 0 and no open mode. The tree is left as it was.
\<close>

theorem Attach_walks_to_attach_point:
  "(resolve s (root fs) (split (path_Clean aname)) = None \<longrightarrow>
      Attach s fs uname aname = (Inl NotFound, s)) \<and>
   (\<forall>n. resolve s (root fs) (split (path_Clean aname)) = Some n \<longrightarrow>
      (\<exists>u. Attach s fs uname aname = (Inr \<lparr>num = 0, uid = u, node = n, omode = None\<rparr>, s)))"
  by (simp add: Attach_resolve)

lemma clean_adm_ctl: "split (path_Clean ''/adm/ctl'') = [''adm'', ''ctl'']"
  by code_simp

lemma clean_tmp: "split (path_Clean ''/tmp'') = [''tmp'']"
  by code_simp

lemma clean_root: "split (path_Clean ''/'') = []"
  by code_simp

lemma resolve_New_adm_ctl: "resolve (snd (New ho)) (root (fst (New ho))) [''adm'', ''ctl''] = Some 3"
  by (simp add: New_root New_root_node New_adm_node')

lemma resolve_New_tmp: "resolve (snd (New ho)) (root (fst (New ho))) [''tmp''] = None"
  by (simp add: New_root New_root_node)

lemma New_group_glenda:
  "fs_group (fst (New ''glenda'')) ''glenda'' = Some \<lparr>Name = ''glenda''\<rparr>"
  "fs_group (fst (New ''glenda'')) ''none'' = Some \<lparr>Name = ''none''\<rparr>"
  "fs_group (fst (New ''glenda'')) ''bob'' = None"
  "hostowner (fst (New ''glenda'')) = ''glenda''"
  by (simp_all add: New_fs newGroup_def)

theorem Attach_walks_to_attach_point_witness:
  "resolve (snd (New ''glenda'')) (root (fst (New ''glenda''))) (split (path_Clean ''/tmp'')) = None \<and>
   Attach (snd (New ''glenda'')) (fst (New ''glenda'')) ''glenda'' ''/tmp'' =
     (Inl NotFound, snd (New ''glenda'')) \<and>
   resolve (snd (New ''glenda'')) (root (fst (New ''glenda''))) (split (path_Clean ''/adm/ctl'')) = Some 3 \<and>
   Attach (snd (New ''glenda'')) (fst (New ''glenda'')) ''glenda'' ''/adm/ctl'' =
     (Inr \<lparr>num = 0, uid = ''glenda'', node = 3, omode = None\<rparr>, snd (New ''glenda''))"
proof -
  let ?s = "snd (New ''glenda'')" and ?fs = "fst (New ''glenda'')"
  have r1: "resolve ?s (root ?fs) (split (path_Clean ''/tmp'')) = None"
    by (simp only: clean_tmp resolve_New_tmp)
  have r2: "resolve ?s (root ?fs) (split (path_Clean ''/adm/ctl'')) = Some 3"
    by (simp only: clean_adm_ctl resolve_New_adm_ctl)
  have a1: "Attach ?s ?fs ''glenda'' ''/tmp'' = (Inl NotFound, ?s)"
    using Attach_walks_to_attach_point [of ?s ?fs "''/tmp''" "''glenda''"] r1 by simp
  obtain u where a2: "Attach ?s ?fs ''glenda'' ''/adm/ctl'' =
      (Inr \<lparr>num = 0, uid = u, node = 3, omode = None\<rparr>, ?s)"
    using Attach_walks_to_attach_point [of ?s ?fs "''/adm/ctl''" "''glenda''"] r2 by auto
  have "u = ''glenda''"
    using a2 by (simp add: Attach_resolve r2 New_group_glenda)
  with r1 r2 a1 a2 show ?thesis by simp
qed


text \<open>
  Claim C4. For every user name, \<open>Attach\<close> never returns the error of a failed identity
  lookup. When the user name is not in the identity store, \<open>Attach\<close> does what it does
  for the user name \<^verbatim>\<open>none\<close>, and the fid of a successful attach carries the identity
  stored for \<^verbatim>\<open>none\<close>; on a server built by \<open>New\<close> that identity is \<^verbatim>\<open>none\<close> itself.
\<close>

theorem Attach_never_fails_closed:
  "fst (Attach s fs uname aname) \<noteq> Inl UnknownUser \<and>
   (fs_group fs uname = None \<longrightarrow>
      Attach s fs uname aname = Attach s fs ''none'' aname \<and>
      (\<forall>u fid. fs_group fs ''none'' = Some u \<and> fst (Attach s fs uname aname) = Inr fid \<longrightarrow>
         uid fid = Name u)) \<and>
   (fs_group (fst (New ho)) uname = None \<longrightarrow>
      (\<forall>fid. fst (Attach s (fst (New ho)) uname aname) = Inr fid \<longrightarrow> uid fid = ''none''))"
proof (intro conjI impI allI)
  show "fst (Attach s fs uname aname) \<noteq> Inl UnknownUser"
    by (simp add: Attach_resolve split: option.splits)
next
  assume n: "fs_group fs uname = None"
  show "Attach s fs uname aname = Attach s fs ''none'' aname"
    using n by (simp add: Attach_resolve Get_def split: option.splits)
  fix u fid
  assume "fs_group fs ''none'' = Some u \<and> fst (Attach s fs uname aname) = Inr fid"
  then show "uid fid = Name u"
    using n by (auto simp: Attach_resolve Get_def split: option.splits)
next
  fix fid
  assume n: "fs_group (fst (New ho)) uname = None"
    and a: "fst (Attach s (fst (New ho)) uname aname) = Inr fid"
  have "fs_group (fst (New ho)) ''none'' = Some \<lparr>Name = ''none''\<rparr>"
    by (simp add: New_fs newGroup_def)
  then show "uid fid = ''none''"
    using n a by (auto simp: Attach_resolve Get_def split: option.splits)
qed

lemma clean_empty: "split (path_Clean []) = []"
  by code_simp

theorem Attach_never_fails_closed_witness:
  "fs_group (fst (New ''glenda'')) ''bob'' = None \<and>
   Attach (snd (New ''glenda'')) (fst (New ''glenda'')) ''bob'' [] =
     (Inr \<lparr>num = 0, uid = ''none'', node = root (fst (New ''glenda'')), omode = None\<rparr>,
      snd (New ''glenda''))"
proof -
  let ?s = "snd (New ''glenda'')" and ?fs = "fst (New ''glenda'')"
  have b: "fs_group ?fs ''bob'' = None" by (rule New_group_glenda)
  have "Attach ?s ?fs ''bob'' [] = Attach ?s ?fs ''none'' []"
    using Attach_never_fails_closed [of ?s ?fs "''bob''" "[]"] b by simp
  also have "\<dots> = (Inr \<lparr>num = 0, uid = ''none'', node = root ?fs, omode = None\<rparr>, ?s)"
    by (simp add: Attach_resolve clean_empty New_group_glenda)
  finally show ?thesis using b by simp
qed

subsection \<open>The identity of the local facade\<close>

text \<open>
  With the host identity in the identity store, the lookup at the head of \<open>Create\<close>,
  \<open>Open\<close> and \<open>Remove\<close> succeeds, and what remains is the walk and the call of the
  method that checks permissions.
\<close>

lemma Create_unfold:
  assumes "fs_group fs (hostowner fs) = Some u"
  shows "Create nc ncl (s, fs) name mode perm =
     (case resolve s (root fs) (split (path_Dir (path_Clean name))) of
        None \<Rightarrow> Returns (Inl NotFound, (s, fs))
      | Some dir \<Rightarrow>
          (case nc (s, fs) dir (Name u) (path_Base (path_Clean name)) mode perm of
             (Inl e, w') \<Rightarrow> Returns (Inl e, ncl w' dir)
           | (Inr n, w') \<Rightarrow>
               Returns (Inr \<lparr>num = 0, uid = Name u, node = n, omode = None\<rparr>, ncl w' dir)))"
  using assms
  by (simp add: Create_def Get_def fs_walk_resolve Let_def split: option.splits prod.splits sum.splits)

lemma Open_unfold:
  assumes "fs_group fs (hostowner fs) = Some u"
  shows "Open fo (s, fs) name mode =
     (case resolve s (root fs) (split (path_Clean name)) of
        None \<Rightarrow> Returns (Inl NotFound, (s, fs))
      | Some n \<Rightarrow>
          (case fo (s, fs) \<lparr>num = 0, uid = Name u, node = n, omode = None\<rparr> mode of
             (Some e, fid', w') \<Rightarrow> Returns (Inl e, w')
           | (None, fid', w') \<Rightarrow> Returns (Inr fid', w')))"
  using assms
  by (simp add: Open_def Get_def fs_walk_resolve Let_def split: option.splits prod.splits sum.splits)

lemma Remove_unfold:
  assumes "fs_group fs (hostowner fs) = Some u"
  shows "Remove fr (s, fs) name =
     (case resolve s (root fs) (split (path_Clean name)) of
        None \<Rightarrow> Returns (Some NotFound, (s, fs))
      | Some n \<Rightarrow> Returns (fr (s, fs) \<lparr>num = 0, uid = Name u, node = n, omode = None\<rparr>))"
  using assms
  by (simp add: Remove_def Get_def fs_walk_resolve Let_def split: option.splits prod.splits sum.splits)

lemma Create_panics:
  "fs_group fs (hostowner fs) = None \<Longrightarrow> Create nc ncl (s, fs) name mode perm = Panics UnknownUser"
  by (simp add: Create_def Get_def)

lemma Open_panics:
  "fs_group fs (hostowner fs) = None \<Longrightarrow> Open fo (s, fs) name mode = Panics UnknownUser"
  by (simp add: Open_def Get_def)

lemma Remove_panics:
  "fs_group fs (hostowner fs) = None \<Longrightarrow> Remove fr (s, fs) name = Panics UnknownUser"
  by (simp add: Remove_def Get_def)

text \<open>
  Claim C3, as amended. For every path, the identity that \<open>Create\<close>, \<open>Open\<close> and
  \<open>Remove\<close> use for the permission checks is the one stored for the configured host
  owner. If the store holds an identity \<open>u\<close> for the host owner, they do not panic and
  the method that checks permissions is only ever called with the name of \<open>u\<close>: two such
  methods that agree on that uid give the same result, and the fid that \<open>Create\<close> returns
  carries it. If the store holds none, each of the three panics with the error of the
  lookup and checks no permission at all. \<open>Attach\<close> is different: its fid carries the
  identity stored for the user name it is given, or the one stored for \<^verbatim>\<open>none\<close> when that
  user name is unknown. On a server built by \<open>New\<close> the store holds the host owner under
  its own name.
\<close>

theorem facade_identity:
  "(\<forall>u. fs_group fs (hostowner fs) = Some u \<longrightarrow>
      (\<forall>r. Create nc ncl (s, fs) name mode perm \<noteq> Panics r) \<and>
      (\<forall>r. Open fo (s, fs) name omd \<noteq> Panics r) \<and>
      (\<forall>r. Remove fr (s, fs) name \<noteq> Panics r) \<and>
      ((\<forall>w d n m p. nc' w d (Name u) n m p = nc w d (Name u) n m p) \<longrightarrow>
         Create nc' ncl (s, fs) name mode perm = Create nc ncl (s, fs) name mode perm) \<and>
      (\<forall>fid w. Create nc ncl (s, fs) name mode perm = Returns (Inr fid, w) \<longrightarrow> uid fid = Name u) \<and>
      ((\<forall>w fid m. uid fid = Name u \<longrightarrow> fo' w fid m = fo w fid m) \<longrightarrow>
         Open fo' (s, fs) name omd = Open fo (s, fs) name omd) \<and>
      ((\<forall>w fid. uid fid = Name u \<longrightarrow> fr' w fid = fr w fid) \<longrightarrow>
         Remove fr' (s, fs) name = Remove fr (s, fs) name)) \<and>
   (fs_group fs (hostowner fs) = None \<longrightarrow>
      Create nc ncl (s, fs) name mode perm = Panics UnknownUser \<and>
      Open fo (s, fs) name omd = Panics UnknownUser \<and>
      Remove fr (s, fs) name = Panics UnknownUser) \<and>
   (\<forall>fid. fst (Attach s fs uname aname) = Inr fid \<longrightarrow>
      uid fid = (case fs_group fs uname of
                   Some v \<Rightarrow> Name v
                 | None \<Rightarrow> Name (fst (Get (fs_group fs) ''none'')))) \<and>
   fs_group (fst (New ho)) (hostowner (fst (New ho))) = Some \<lparr>Name = hostowner (fst (New ho))\<rparr>"
proof (intro conjI allI impI)
  show "fs_group (fst (New ho)) (hostowner (fst (New ho))) = Some \<lparr>Name = hostowner (fst (New ho))\<rparr>"
    by (simp add: New_fs newGroup_def)
next
  fix fid
  assume "fst (Attach s fs uname aname) = Inr fid"
  then show "uid fid = (case fs_group fs uname of
                   Some v \<Rightarrow> Name v
                 | None \<Rightarrow> Name (fst (Get (fs_group fs) ''none'')))"
    by (auto simp: Attach_resolve split: option.splits)
next
  assume n: "fs_group fs (hostowner fs) = None"
  show "Create nc ncl (s, fs) name mode perm = Panics UnknownUser"
    using n by (rule Create_panics)
  show "Open fo (s, fs) name omd = Panics UnknownUser"
    using n by (rule Open_panics)
  show "Remove fr (s, fs) name = Panics UnknownUser"
    using n by (rule Remove_panics)
next
  fix u r
  assume h: "fs_group fs (hostowner fs) = Some u"
  show "Create nc ncl (s, fs) name mode perm \<noteq> Panics r"
    by (simp add: Create_unfold [OF h] split: option.splits prod.splits sum.splits)
  show "Open fo (s, fs) name omd \<noteq> Panics r"
    by (simp add: Open_unfold [OF h] split: option.splits prod.splits sum.splits)
  show "Remove fr (s, fs) name \<noteq> Panics r"
    by (simp add: Remove_unfold [OF h] split: option.splits prod.splits sum.splits)
next
  fix u
  assume h: "fs_group fs (hostowner fs) = Some u"
    and "\<forall>w d n m p. nc' w d (Name u) n m p = nc w d (Name u) n m p"
  then have "\<And>w d n m p. nc' w d (Name u) n m p = nc w d (Name u) n m p" by blast
  then show "Create nc' ncl (s, fs) name mode perm = Create nc ncl (s, fs) name mode perm"
    by (simp only: Create_unfold [OF h])
next
  fix u fid w
  assume h: "fs_group fs (hostowner fs) = Some u"
    and "Create nc ncl (s, fs) name mode perm = Returns (Inr fid, w)"
  then show "uid fid = Name u"
    by (auto simp: Create_unfold [OF h] split: option.splits prod.splits sum.splits)
next
  fix u
  assume h: "fs_group fs (hostowner fs) = Some u"
    and "\<forall>w fid m. uid fid = Name u \<longrightarrow> fo' w fid m = fo w fid m"
  then show "Open fo' (s, fs) name omd = Open fo (s, fs) name omd"
    by (simp add: Open_unfold [OF h] split: option.splits)
next
  fix u
  assume h: "fs_group fs (hostowner fs) = Some u"
    and "\<forall>w fid. uid fid = Name u \<longrightarrow> fr' w fid = fr w fid"
  then show "Remove fr' (s, fs) name = Remove fr (s, fs) name"
    by (simp add: Remove_unfold [OF h] split: option.splits)
qed

text \<open>
  On the server of host owner \<^verbatim>\<open>glenda\<close>, methods that admit nobody but \<^verbatim>\<open>glenda\<close> admit
  the facade: \<open>Create\<close> makes \<^verbatim>\<open>/adm/x\<close> in the directory \<^verbatim>\<open>adm\<close>, \<open>Open\<close> opens
  \<^verbatim>\<open>/adm/ctl\<close> and \<open>Remove\<close> removes it. With the identity store emptied, each of the
  three panics.
\<close>

lemma clean_adm_x: "split (path_Dir (path_Clean ''/adm/x'')) = [''adm'']"
  by code_simp

lemma resolve_New_adm: "resolve (snd (New ho)) (root (fst (New ho))) [''adm''] = Some 1"
  by (simp add: New_root New_root_node)

theorem facade_identity_witness:
  "fs_group (fst (New ''glenda'')) (hostowner (fst (New ''glenda''))) = Some \<lparr>Name = ''glenda''\<rparr> \<and>
   Create (\<lambda>w d u n m p. if u = ''glenda'' then (Inr 7, w) else (Inl (perror ''permission denied''), w))
     (\<lambda>w d. w) (snd (New ''glenda''), fst (New ''glenda'')) ''/adm/x'' 1 (octal [6, 4, 4]) =
     Returns (Inr \<lparr>num = 0, uid = ''glenda'', node = 7, omode = None\<rparr>,
              (snd (New ''glenda''), fst (New ''glenda''))) \<and>
   Open (\<lambda>w fid m. if uid fid = ''glenda'' then (None, fid\<lparr>omode := Some m\<rparr>, w)
                     else (Some (perror ''permission denied''), fid, w))
     (snd (New ''glenda''), fst (New ''glenda'')) ''/adm/ctl'' 1 =
     Returns (Inr \<lparr>num = 0, uid = ''glenda'', node = 3, omode = Some 1\<rparr>,
              (snd (New ''glenda''), fst (New ''glenda''))) \<and>
   Remove (\<lambda>w fid. if uid fid = ''glenda'' then (None, w) else (Some (perror ''permission denied''), w))
     (snd (New ''glenda''), fst (New ''glenda'')) ''/adm/ctl'' =
     Returns (None, (snd (New ''glenda''), fst (New ''glenda''))) \<and>
   fs_group (fst (New ''glenda'')\<lparr>fs_group := Map.empty\<rparr>)
     (hostowner (fst (New ''glenda'')\<lparr>fs_group := Map.empty\<rparr>)) = None \<and>
   Create (\<lambda>w d u n m p. (Inr 7, w)) (\<lambda>w d. w)
     (snd (New ''glenda''), fst (New ''glenda'')\<lparr>fs_group := Map.empty\<rparr>) ''/adm/x'' 1 (octal [6, 4, 4]) =
     Panics UnknownUser \<and>
   Open (\<lambda>w fid m. (None, fid\<lparr>omode := Some m\<rparr>, w))
     (snd (New ''glenda''), fst (New ''glenda'')\<lparr>fs_group := Map.empty\<rparr>) ''/adm/ctl'' 1 =
     Panics UnknownUser \<and>
   Remove (\<lambda>w fid. (None, w))
     (snd (New ''glenda''), fst (New ''glenda'')\<lparr>fs_group := Map.empty\<rparr>) ''/adm/ctl'' =
     Panics UnknownUser"
proof -
  let ?s = "snd (New ''glenda'')" and ?fs = "fst (New ''glenda'')"
  let ?fe = "fst (New ''glenda'')\<lparr>fs_group := Map.empty\<rparr>"
  let ?nc' = "\<lambda>(w :: world) (d :: ref) u (n :: string) (m :: u8) (p :: Perm).
                if u = ''glenda'' then (Inr 7 :: error + ref, w) else (Inl (perror ''permission denied''), w)"
  let ?nc = "\<lambda>(w :: world) (d :: ref) (u :: string) (n :: string) (m :: u8) (p :: Perm). (Inr 7 :: error + ref, w)"
  let ?ncl = "\<lambda>(w :: world) (d :: ref). w"
  let ?fo' = "\<lambda>(w :: world) fid (m :: u8). if uid fid = ''glenda'' then (None, fid\<lparr>omode := Some m\<rparr>, w)
                     else (Some (perror ''permission denied''), fid, w)"
  let ?fo = "\<lambda>(w :: world) fid (m :: u8). (None :: error option, fid\<lparr>omode := Some m\<rparr>, w)"
  let ?fr' = "\<lambda>(w :: world) (fid :: Fid). if uid fid = ''glenda'' then (None, w)
                     else (Some (perror ''permission denied''), w)"
  let ?fr = "\<lambda>(w :: world) (fid :: Fid). (None :: error option, w)"
  have h: "fs_group ?fs (hostowner ?fs) = Some \<lparr>Name = ''glenda''\<rparr>"
    by (simp add: New_group_glenda)
  have e: "fs_group ?fe (hostowner ?fe) = None"
    by simp
  have rd: "resolve ?s (root ?fs) (split (path_Dir (path_Clean ''/adm/x''))) = Some 1"
    by (simp only: clean_adm_x resolve_New_adm)
  have r: "resolve ?s (root ?fs) (split (path_Clean ''/adm/ctl'')) = Some 3"
    by (simp only: clean_adm_ctl resolve_New_adm_ctl)
  note ok = facade_identity [where fs = ?fs and s = ?s and nc = ?nc and nc' = ?nc' and ncl = ?ncl
      and fo = ?fo and fo' = ?fo' and fr = ?fr and fr' = ?fr'
      and mode = 1 and perm = "octal [6, 4, 4]" and omd = 1]
  have "Create ?nc' ?ncl (?s, ?fs) ''/adm/x'' 1 (octal [6, 4, 4]) =
        Create ?nc ?ncl (?s, ?fs) ''/adm/x'' 1 (octal [6, 4, 4])"
    using ok [where name = "''/adm/x''"] h by simp
  also have "\<dots> = Returns (Inr \<lparr>num = 0, uid = ''glenda'', node = 7, omode = None\<rparr>, (?s, ?fs))"
    by (simp add: Create_unfold [OF h] rd)
  finally have c: "Create ?nc' ?ncl (?s, ?fs) ''/adm/x'' 1 (octal [6, 4, 4]) =
      Returns (Inr \<lparr>num = 0, uid = ''glenda'', node = 7, omode = None\<rparr>, (?s, ?fs))" .
  have "Open ?fo' (?s, ?fs) ''/adm/ctl'' 1 = Open ?fo (?s, ?fs) ''/adm/ctl'' 1"
    using ok [where name = "''/adm/ctl''"] h by simp
  also have "\<dots> = Returns (Inr \<lparr>num = 0, uid = ''glenda'', node = 3, omode = Some 1\<rparr>, (?s, ?fs))"
    by (simp add: Open_unfold [OF h] r)
  finally have o: "Open ?fo' (?s, ?fs) ''/adm/ctl'' 1 =
      Returns (Inr \<lparr>num = 0, uid = ''glenda'', node = 3, omode = Some 1\<rparr>, (?s, ?fs))" .
  have "Remove ?fr' (?s, ?fs) ''/adm/ctl'' = Remove ?fr (?s, ?fs) ''/adm/ctl''"
    using ok [where name = "''/adm/ctl''"] h by simp
  also have "\<dots> = Returns (None, (?s, ?fs))"
    by (simp add: Remove_unfold [OF h] r)
  finally have rm: "Remove ?fr' (?s, ?fs) ''/adm/ctl'' = Returns (None, (?s, ?fs))" .
  note bad = facade_identity [where fs = ?fe and s = ?s and nc = ?nc and ncl = ?ncl
      and fo = ?fo and fr = ?fr and mode = 1 and perm = "octal [6, 4, 4]" and omd = 1]
  have p1: "Create ?nc ?ncl (?s, ?fe) ''/adm/x'' 1 (octal [6, 4, 4]) = Panics UnknownUser"
    using bad [where name = "''/adm/x''"] e by blast
  have p2: "Open ?fo (?s, ?fe) ''/adm/ctl'' 1 = Panics UnknownUser"
    using bad [where name = "''/adm/ctl''"] e by blast
  have p3: "Remove ?fr (?s, ?fe) ''/adm/ctl'' = Panics UnknownUser"
    using bad [where name = "''/adm/ctl''"] e by blast
  show ?thesis
    using h e c o rm p1 p2 p3 by (intro conjI)
qed

text \<open>
  As stated, for all four operations, the claim fails: on the server of host owner
  \<^verbatim>\<open>glenda\<close>, \<open>Attach\<close> with the user name \<^verbatim>\<open>none\<close> returns a fid whose identity is
  \<^verbatim>\<open>none\<close>.
\<close>

theorem Attach_identity_counterexample:
  "hostowner (fst (New ''glenda'')) = ''glenda'' \<and>
   Attach (snd (New ''glenda'')) (fst (New ''glenda'')) ''none'' ''/'' =
     (Inr \<lparr>num = 0, uid = ''none'', node = root (fst (New ''glenda'')), omode = None\<rparr>,
      snd (New ''glenda'')) \<and>
   ''none'' \<noteq> ''glenda''"
  by (simp add: Attach_resolve clean_root New_group_glenda)

end
